theory Spec2Isabelle
  imports Main "HOL-Library.Sublist"
begin

section \<open>Values of the Python program\<close>

text \<open>
  A byte string (\<open>bytes\<close>) is a list of 8-bit characters. A text (\<open>str\<close>) is the list of
  its code points, so that encoding and decoding are functions between the two types, as
  they are in Python.
\<close>

type_synonym bytes = string
type_synonym str = "nat list"

definition ascii :: "string \<Rightarrow> str" where
  "ascii s = map of_char s"

text \<open>
  Exceptions are values. A class stands for itself and its subclasses, except that
  \<open>IndexError\<close> is kept apart from its parent \<open>LookupError\<close>; every class here derives from
  \<open>Exception\<close>.
\<close>

datatype exn_class =
    IMAP4_error | OSError | AttributeError | TypeError | ValueError
  | UnicodeDecodeError | UnicodeEncodeError | LookupError | IndexError | OtherException

datatype exn = Exn (cls: exn_class) (msg: str)

text \<open>The elements of the \<open>data\<close> list that an imaplib command returns next to its status.\<close>

datatype item = IBytes bytes | ITuple bytes bytes | INone

type_synonym reply = "str \<times> item list"

text \<open>What \<open>readline\<close> may hand back: \<open>_read_imap_response\<close> tests for bytes and for falsiness.\<close>

datatype raw_line = LBytes bytes | LStr str | LNone

text \<open>The methods of the connection object that return a \<open>(typ, data)\<close> pair.\<close>

datatype cmd =
    Authenticate str str
  | Select str bool
  | Noop
  | Uid_search "str option" str
  | Uid_fetch str str
  | Uid_store str str str
  | Expunge
  | Close
  | Logout

text \<open>
  Everything the program does to the outside is an event of the log, with the answer it got.
  The outside world (library and server) is a record of functions from the log so far to
  the next answer, so that any behaviour of a server, however it depends on the history of
  the session, is one value of \<open>env\<close>.
\<close>

datatype event =
    Opened str "exn option"
  | Called cmd "exn + reply"
  | New_tag "exn + str"
  | Sent bytes "exn option"
  | Read_line "exn + raw_line"
  | State_set str

type_synonym log = "event list"

datatype payload = PBytes bytes | PStr str

record env =
  imap_open :: "log \<Rightarrow> str \<Rightarrow> exn option"
  imap_call :: "log \<Rightarrow> cmd \<Rightarrow> exn + reply"
  imap_new_tag :: "log \<Rightarrow> exn + str"
  imap_send :: "log \<Rightarrow> bytes \<Rightarrow> exn option"
  imap_readline :: "log \<Rightarrow> exn + raw_line"
  bytes_decode :: "str \<Rightarrow> bytes \<Rightarrow> exn + str"
  str_strip :: "str \<Rightarrow> str"
  decode_header :: "str \<Rightarrow> exn + (payload \<times> str option) list"
  subject_of :: "bytes \<Rightarrow> str option"

text \<open>
  \<open>imap_open lg server\<close> is \<open>imaplib.IMAP4_SSL(server)\<close>; \<open>imap_new_tag\<close> is \<open>_new_tag()\<close>, giving
  the tag as \<open>str(tag)\<close> renders it; \<open>bytes_decode env enc b\<close> is
  \<open>b.decode(enc, errors='ignore')\<close>; \<open>str_strip\<close> is \<open>str.strip()\<close>; \<open>decode_header\<close> is
  \<open>email.header.decode_header\<close>; \<open>subject_of b\<close> is
  \<open>email.message_from_bytes(b).get("Subject", "")\<close>.
\<close>

section \<open>Strings\<close>

definition startswith :: "str \<Rightarrow> str \<Rightarrow> bool" where
  "startswith s p = prefix p s"

definition py_in :: "str \<Rightarrow> str \<Rightarrow> bool" where
  "py_in needle hay = sublist needle hay"

text \<open>
  \<open>str.upper()\<close> on the ASCII letters. No character outside ASCII has an upper-case form
  containing \<open>O\<close> or \<open>K\<close>, so the test \<open>'OK' in s.upper()\<close> is decided by the ASCII
  letters alone.
\<close>

definition upper_cp :: "nat \<Rightarrow> nat" where
  "upper_cp n = (if 97 \<le> n \<and> n \<le> 122 then n - 32 else n)"

definition upper :: "str \<Rightarrow> str" where
  "upper s = map upper_cp s"

text \<open>
  \<open>str.lower()\<close> as far as it can produce ASCII letters: from the ASCII capitals and from
  the Kelvin sign U+212A.
\<close>

definition lower_cp :: "nat \<Rightarrow> nat" where
  "lower_cp n = (if 65 \<le> n \<and> n \<le> 90 then n + 32 else if n = 0x212A then 107 else n)"

definition lower :: "str \<Rightarrow> str" where
  "lower s = map lower_cp s"

fun join_space :: "str list \<Rightarrow> str" where
  "join_space [] = []"
| "join_space [x] = x"
| "join_space (x # y # ys) = x @ [32] @ join_space (y # ys)"

definition is_space :: "char \<Rightarrow> bool" where
  "is_space c = (c \<in> set [CHR '' '', CHR 0x09, CHR 0x0A, CHR 0x0B, CHR 0x0C, CHR 0x0D])"

text \<open>\<open>bytes.split()\<close>: the maximal runs of bytes that are not ASCII whitespace.\<close>

fun split_acc :: "bytes \<Rightarrow> bytes \<Rightarrow> bytes list" where
  "split_acc w [] = (if w = [] then [] else [w])"
| "split_acc w (c # cs) =
     (if is_space c then (if w = [] then split_acc [] cs else w # split_acc [] cs)
      else split_acc (w @ [c]) cs)"

definition split_ws :: "bytes \<Rightarrow> bytes list" where
  "split_ws b = split_acc [] b"

definition CRLF :: str where
  "CRLF = [13, 10]"

section \<open>UTF-8 and base64\<close>

text \<open>\<open>str.encode('utf-8')\<close>: a surrogate code point raises \<open>UnicodeEncodeError\<close>.\<close>

definition utf8_encode_cp :: "nat \<Rightarrow> exn + bytes" where
  "utf8_encode_cp c =
     (if c < 0x80 then Inr [char_of c]
      else if c < 0x800 then Inr [char_of (0xC0 + c div 64), char_of (0x80 + c mod 64)]
      else if 0xD800 \<le> c \<and> c < 0xE000
        then Inl (Exn UnicodeEncodeError (ascii ''surrogates not allowed''))
      else if c < 0x10000 then
        Inr [char_of (0xE0 + c div 4096), char_of (0x80 + c div 64 mod 64),
             char_of (0x80 + c mod 64)]
      else
        Inr [char_of (0xF0 + c div 262144), char_of (0x80 + c div 4096 mod 64),
             char_of (0x80 + c div 64 mod 64), char_of (0x80 + c mod 64)])"

fun utf8_encode :: "str \<Rightarrow> exn + bytes" where
  "utf8_encode [] = Inr []"
| "utf8_encode (c # cs) =
     (case utf8_encode_cp c of
        Inl e \<Rightarrow> Inl e
      | Inr b \<Rightarrow> (case utf8_encode cs of Inl e \<Rightarrow> Inl e | Inr bs \<Rightarrow> Inr (b @ bs)))"

text \<open>
  \<open>bytes.decode('utf-8')\<close>, strict: RFC 3629, shortest forms only, no surrogates, nothing
  above U+10FFFF.
\<close>

definition cont :: "char \<Rightarrow> bool" where
  "cont b = (128 \<le> (of_char b :: nat) \<and> (of_char b :: nat) < 192)"

fun utf8_decode :: "bytes \<Rightarrow> str option" where
  "utf8_decode [] = Some []"
| "utf8_decode (a # bs) =
     (let x = (of_char a :: nat) in
      if x < 0x80 then map_option ((#) x) (utf8_decode bs)
      else if x < 0xC0 then None
      else if x < 0xE0 then
        (case bs of
           b # bs' \<Rightarrow>
             (let c = (x - 0xC0) * 64 + (of_char b - 0x80) in
              if cont b \<and> 0x80 \<le> c then map_option ((#) c) (utf8_decode bs') else None)
         | _ \<Rightarrow> None)
      else if x < 0xF0 then
        (case bs of
           b # b2 # bs' \<Rightarrow>
             (let c = (x - 0xE0) * 4096 + (of_char b - 0x80) * 64 + (of_char b2 - 0x80) in
              if cont b \<and> cont b2 \<and> 0x800 \<le> c \<and> \<not> (0xD800 \<le> c \<and> c < 0xE000)
              then map_option ((#) c) (utf8_decode bs') else None)
         | _ \<Rightarrow> None)
      else if x < 0xF8 then
        (case bs of
           b # b2 # b3 # bs' \<Rightarrow>
             (let c = (x - 0xF0) * 262144 + (of_char b - 0x80) * 4096
                      + (of_char b2 - 0x80) * 64 + (of_char b3 - 0x80) in
              if cont b \<and> cont b2 \<and> cont b3 \<and> 0x10000 \<le> c \<and> c < 0x110000
              then map_option ((#) c) (utf8_decode bs') else None)
         | _ \<Rightarrow> None)
      else None)"

definition decode_utf8_strict :: "bytes \<Rightarrow> exn + str" where
  "decode_utf8_strict b =
     (case utf8_decode b of
        None \<Rightarrow> Inl (Exn UnicodeDecodeError (ascii ''invalid utf-8''))
      | Some s \<Rightarrow> Inr s)"

text \<open>A text is a Python \<open>str\<close> when its code points are below \<open>0x110000\<close>.\<close>

definition is_str :: "str \<Rightarrow> bool" where
  "is_str s = list_all (\<lambda>c. c < 0x110000) s"

definition surrogate :: "nat \<Rightarrow> bool" where
  "surrogate c = (0xD800 \<le> c \<and> c < 0xE000)"

text \<open>The standard base64 alphabet (RFC 4648): \<open>A-Z\<close>, \<open>a-z\<close>, \<open>0-9\<close>, \<open>+\<close>, \<open>/\<close>.\<close>

definition b64_char :: "nat \<Rightarrow> char" where
  "b64_char i =
     char_of (if i < 26 then 65 + i else if i < 52 then 71 + i else if i < 62 then i - 4
              else if i = 62 then 43 else (47::nat))"

definition b64_index :: "char \<Rightarrow> nat option" where
  "b64_index ch =
     (let n = (of_char ch :: nat) in
      if 65 \<le> n \<and> n \<le> 90 then Some (n - 65)
      else if 97 \<le> n \<and> n \<le> 122 then Some (n - 71)
      else if 48 \<le> n \<and> n \<le> 57 then Some (n + 4)
      else if n = 43 then Some 62
      else if n = 47 then Some 63
      else None)"

text \<open>\<open>base64.b64encode\<close>: three bytes give four characters, the last group is padded.\<close>

fun b64encode :: "bytes \<Rightarrow> bytes" where
  "b64encode [] = []"
| "b64encode [a] =
     (let x = (of_char a :: nat) in
      [b64_char (x div 4), b64_char (x mod 4 * 16), CHR ''='', CHR ''=''])"
| "b64encode [a, b] =
     (let x = (of_char a :: nat); y = (of_char b :: nat) in
      [b64_char (x div 4), b64_char (x mod 4 * 16 + y div 16), b64_char (y mod 16 * 4),
       CHR ''=''])"
| "b64encode (a # b # c # rest) =
     (let x = (of_char a :: nat); y = (of_char b :: nat); z = (of_char c :: nat) in
      [b64_char (x div 4), b64_char (x mod 4 * 16 + y div 16),
       b64_char (y mod 16 * 4 + z div 64), b64_char (z mod 64)] @ b64encode rest)"

text \<open>
  The decoder the round trip is stated with: the strict inverse of RFC 4648, which accepts
  only whole groups of four characters of the alphabet, padded at the end.
\<close>

fun b64decode :: "bytes \<Rightarrow> bytes option" where
  "b64decode [] = Some []"
| "b64decode (p # q # r # s # rest) =
     (if r = CHR ''='' \<and> s = CHR ''='' then
        (case (b64_index p, b64_index q) of
           (Some i, Some j) \<Rightarrow> if rest = [] then Some [char_of (i * 4 + j div 16)] else None
         | _ \<Rightarrow> None)
      else if s = CHR ''='' then
        (case (b64_index p, b64_index q, b64_index r) of
           (Some i, Some j, Some k) \<Rightarrow>
             if rest = [] then Some [char_of (i * 4 + j div 16), char_of (j mod 16 * 16 + k div 4)]
             else None
         | _ \<Rightarrow> None)
      else
        (case (b64_index p, b64_index q, b64_index r, b64_index s) of
           (Some i, Some j, Some k, Some l) \<Rightarrow>
             (case b64decode rest of
                None \<Rightarrow> None
              | Some bs \<Rightarrow>
                  Some ([char_of (i * 4 + j div 16), char_of (j mod 16 * 16 + k div 4),
                         char_of (k mod 4 * 64 + l)] @ bs))
         | _ \<Rightarrow> None))"
| "b64decode _ = None"

text \<open>Decoding a base64 text back to the text it encodes.\<close>

definition b64decode_text :: "str \<Rightarrow> str option" where
  "b64decode_text s =
     (case b64decode (map char_of s) of None \<Rightarrow> None | Some b \<Rightarrow> utf8_decode b)"

section \<open>auth.py\<close>

text \<open>
  The first two statements of \<open>authenticate_oauth2\<close>: the f-string
  \<open>user=<email>\x01auth=Bearer <token>\x01\x01\<close>, encoded as UTF-8, then as base64, whose
  ASCII bytes \<open>.decode('utf-8')\<close> turns into a text.
\<close>

definition auth_string :: "str \<Rightarrow> str \<Rightarrow> str" where
  "auth_string email_address access_token =
     ascii ''user='' @ email_address @ [1] @ ascii ''auth=Bearer '' @ access_token @ [1, 1]"

definition sasl_auth_bytes :: "str \<Rightarrow> str \<Rightarrow> exn + str" where
  "sasl_auth_bytes email_address access_token =
     (case utf8_encode (auth_string email_address access_token) of
        Inl e \<Rightarrow> Inl e
      | Inr b \<Rightarrow> Inr (ascii (b64encode b)))"

text \<open>What \<open>_read_imap_response\<close> makes of the answer of \<open>readline\<close>.\<close>

definition line_text :: "env \<Rightarrow> exn + raw_line \<Rightarrow> exn + str" where
  "line_text env r =
     (case r of
        Inl e \<Rightarrow> Inl e
      | Inr (LBytes b) \<Rightarrow>
          (case bytes_decode env (ascii ''utf-8'') b of
             Inl e \<Rightarrow> Inl e
           | Inr s \<Rightarrow> Inr (str_strip env s))
      | Inr (LStr s) \<Rightarrow> Inr (if s \<noteq> [] then str_strip env s else [])
      | Inr LNone \<Rightarrow> Inr [])"

definition read_imap_response :: "env \<Rightarrow> log \<Rightarrow> (exn + str) \<times> log" where
  "read_imap_response env lg =
     (let r = imap_readline env lg in (line_text env r, lg @ [Read_line r]))"

text \<open>
  The \<open>while\<close> loop of \<open>_read_final_auth_response\<close>, with its counter \<open>attempts\<close> and its
  accumulator \<open>response_lines\<close>.
\<close>

function read_final_loop ::
  "env \<Rightarrow> str \<Rightarrow> nat \<Rightarrow> nat \<Rightarrow> str list \<Rightarrow> log \<Rightarrow> (exn + str list) \<times> log" where
  "read_final_loop env tag_str max_attempts attempts response_lines lg =
     (if attempts < max_attempts then
        (case read_imap_response env lg of
           (Inl e, lg') \<Rightarrow> (Inl e, lg')
         | (Inr response, lg') \<Rightarrow>
             if response = [] then (Inr response_lines, lg')
             else if startswith response tag_str then (Inr (response_lines @ [response]), lg')
             else read_final_loop env tag_str max_attempts (attempts + 1)
                    (response_lines @ [response]) lg')
      else (Inr response_lines, lg))"
  by pat_completeness auto
termination
  by (relation "measure (\<lambda>(env, tag_str, max_attempts, attempts, response_lines, lg).
        max_attempts - attempts)") auto

declare read_final_loop.simps [simp del]

definition read_final_auth_response ::
  "env \<Rightarrow> str \<Rightarrow> nat \<Rightarrow> log \<Rightarrow> (exn + str) \<times> log" where
  "read_final_auth_response env tag_str max_attempts lg =
     (case read_final_loop env tag_str max_attempts 0 [] lg of
        (Inl e, lg') \<Rightarrow> (Inl e, lg')
      | (Inr response_lines, lg') \<Rightarrow> (Inr (join_space response_lines), lg'))"

definition validate_auth_response :: "str \<Rightarrow> str \<Rightarrow> exn + bool" where
  "validate_auth_response full_response tag_str =
     (if py_in tag_str full_response \<and> py_in (ascii ''OK'') (upper full_response) then Inr True
      else Inl (Exn IMAP4_error
             (ascii ''XOAUTH2 authentication failed. Server response: '' @ full_response)))"

text \<open>
  The handler at the end of \<open>_authenticate_oauth2_manual\<close>: an \<open>IMAP4.error\<close> is raised
  again, anything else is wrapped into one.
\<close>

definition wrap_auth_error :: "exn \<Rightarrow> exn" where
  "wrap_auth_error e =
     (if cls e = IMAP4_error then e
      else Exn IMAP4_error (ascii ''Error during XOAUTH2 authentication: '' @ msg e))"

text \<open>\<open>imap_conn.send(text.encode('utf-8'))\<close>.\<close>

definition conn_send :: "env \<Rightarrow> str \<Rightarrow> log \<Rightarrow> exn option \<times> log" where
  "conn_send env text lg =
     (case utf8_encode text of
        Inl e \<Rightarrow> (Some e, lg)
      | Inr b \<Rightarrow> (let r = imap_send env lg b in (r, lg @ [Sent b r])))"

definition conn_call :: "env \<Rightarrow> cmd \<Rightarrow> log \<Rightarrow> (exn + reply) \<times> log" where
  "conn_call env c lg = (let r = imap_call env lg c in (r, lg @ [Called c r]))"

definition default_max_attempts :: nat where
  "default_max_attempts = 10"

text \<open>
  The body of the \<open>try\<close> of \<open>_authenticate_oauth2_manual\<close> in two parts: the exchange up to
  the accumulated final response, and its validation.
\<close>

definition manual_read :: "env \<Rightarrow> str \<Rightarrow> str \<Rightarrow> log \<Rightarrow> (exn + str) \<times> log" where
  "manual_read env tag auth_bytes lg =
     (case conn_send env (tag @ ascii '' AUTHENTICATE XOAUTH2'' @ CRLF) lg of
        (Some e, lg1) \<Rightarrow> (Inl e, lg1)
      | (None, lg1) \<Rightarrow>
     (case read_imap_response env lg1 of
        (Inl e, lg2) \<Rightarrow> (Inl e, lg2)
      | (Inr response, lg2) \<Rightarrow>
     if \<not> (startswith response (ascii ''+'') \<or> response = ascii ''+'') then
       (Inl (Exn IMAP4_error
          (ascii ''Unexpected server response: '' @ response @ ascii ''. Expected '' @ [39]
           @ ascii ''+'' @ [39] @ ascii '' to continue.'')), lg2)
     else
     (case conn_send env (auth_bytes @ CRLF) lg2 of
        (Some e, lg3) \<Rightarrow> (Inl e, lg3)
      | (None, lg3) \<Rightarrow> read_final_auth_response env tag default_max_attempts lg3)))"

definition manual_exchange :: "env \<Rightarrow> str \<Rightarrow> str \<Rightarrow> log \<Rightarrow> (exn + bool) \<times> log" where
  "manual_exchange env tag auth_bytes lg =
     (case manual_read env tag auth_bytes lg of
        (Inl e, lg4) \<Rightarrow> (Inl e, lg4)
      | (Inr full_response, lg4) \<Rightarrow>
          (case validate_auth_response full_response tag of
             Inl e \<Rightarrow> (Inl e, lg4)
           | Inr ok \<Rightarrow> (Inr True, lg4 @ [State_set (ascii ''AUTH'')])))"

definition authenticate_oauth2_manual :: "env \<Rightarrow> str \<Rightarrow> log \<Rightarrow> (exn + bool) \<times> log" where
  "authenticate_oauth2_manual env auth_bytes lg =
     (let t = imap_new_tag env lg; lg0 = lg @ [New_tag t] in
      case t of
        Inl e \<Rightarrow> (Inl e, lg0)
      | Inr tag \<Rightarrow>
          (case manual_exchange env tag auth_bytes lg0 of
             (Inl e, lg') \<Rightarrow> (Inl (wrap_auth_error e), lg')
           | (Inr ok, lg') \<Rightarrow> (Inr ok, lg')))"

text \<open>
  \<open>authenticate_oauth2\<close>. A status other than \<open>OK\<close> raises inside the \<open>try\<close>, and both
  handlers of the \<open>try\<close> call the manual implementation, so every exception of the built-in
  call and every other status continue there.
\<close>

definition authenticate_oauth2 :: "env \<Rightarrow> str \<Rightarrow> str \<Rightarrow> log \<Rightarrow> (exn + bool) \<times> log" where
  "authenticate_oauth2 env email_address access_token lg =
     (case sasl_auth_bytes email_address access_token of
        Inl e \<Rightarrow> (Inl e, lg)
      | Inr auth_bytes \<Rightarrow>
          (case conn_call env (Authenticate (ascii ''XOAUTH2'') auth_bytes) lg of
             (Inr (typ, data), lg') \<Rightarrow>
               if typ = ascii ''OK'' then (Inr True, lg')
               else authenticate_oauth2_manual env auth_bytes lg'
           | (Inl e, lg') \<Rightarrow> authenticate_oauth2_manual env auth_bytes lg'))"

section \<open>imap\_service.py\<close>

text \<open>
  The fields of \<open>OutlookService\<close> that never change after \<open>__init__\<close>, and the session: whether
  \<open>self.connection\<close> holds a connection object (it is \<open>None\<close> before the first
  \<open>connect\<close>), and the log.
\<close>

record service =
  server :: str
  email :: str
  token :: str
  mailbox :: str

type_synonym session = "bool \<times> log"

text \<open>A method call on \<open>self.connection\<close>: on \<open>None\<close> it is an \<open>AttributeError\<close>.\<close>

definition self_call :: "env \<Rightarrow> cmd \<Rightarrow> session \<Rightarrow> (exn + reply) \<times> session" where
  "self_call env c st =
     (case st of (connected, lg) \<Rightarrow>
        if \<not> connected then (Inl (Exn AttributeError (ascii ''NoneType object'')), st)
        else (case conn_call env c lg of (r, lg') \<Rightarrow> (r, (connected, lg'))))"

definition connect :: "env \<Rightarrow> service \<Rightarrow> session \<Rightarrow> (exn + unit) \<times> session" where
  "connect env svc st =
     (case st of (connected, lg) \<Rightarrow>
        (let r = imap_open env lg (server svc); lg1 = lg @ [Opened (server svc) r] in
         case r of
           Some e \<Rightarrow> (Inl e, (connected, lg1))
         | None \<Rightarrow>
             (case authenticate_oauth2 env (email svc) (token svc) lg1 of
                (Inl e, lg2) \<Rightarrow> (Inl e, (True, lg2))
              | (Inr ok, lg2) \<Rightarrow>
                  (case conn_call env (Select (mailbox svc) False) lg2 of
                     (Inl e, lg3) \<Rightarrow> (Inl e, (True, lg3))
                   | (Inr r, lg3) \<Rightarrow> (Inr (), (True, lg3))))))"

text \<open>The classes \<open>(OSError, imaplib.IMAP4.error, AttributeError)\<close> and \<open>(OSError, imaplib.IMAP4.error)\<close>.\<close>

definition probe_caught :: "exn \<Rightarrow> bool" where
  "probe_caught e = (cls e = OSError \<or> cls e = IMAP4_error \<or> cls e = AttributeError)"

definition transport :: "exn \<Rightarrow> bool" where
  "transport e = (cls e = OSError \<or> cls e = IMAP4_error)"

definition is_connection_alive :: "env \<Rightarrow> session \<Rightarrow> (exn + bool) \<times> session" where
  "is_connection_alive env st =
     (case self_call env Noop st of
        (Inr r, st') \<Rightarrow> (Inr True, st')
      | (Inl e, st') \<Rightarrow> if probe_caught e then (Inr False, st') else (Inl e, st'))"

text \<open>
  The teardown at the start of \<open>_reconnect\<close>: \<open>close\<close> and \<open>logout\<close>, each in its own \<open>try\<close>;
  what neither catches reaches the outer \<open>try\<close>, which catches \<open>(OSError, AttributeError)\<close>.
\<close>

definition teardown :: "env \<Rightarrow> session \<Rightarrow> (exn + unit) \<times> session" where
  "teardown env st =
     (if fst st then
        (case self_call env Close st of
           (Inl e, st1) \<Rightarrow>
             if probe_caught e then
               (case self_call env Logout st1 of
                  (Inl e2, st2) \<Rightarrow> if probe_caught e2 then (Inr (), st2) else (Inl e2, st2)
                | (Inr r, st2) \<Rightarrow> (Inr (), st2))
             else (Inl e, st1)
         | (Inr r, st1) \<Rightarrow>
             (case self_call env Logout st1 of
                (Inl e2, st2) \<Rightarrow> if probe_caught e2 then (Inr (), st2) else (Inl e2, st2)
              | (Inr r, st2) \<Rightarrow> (Inr (), st2)))
      else (Inr (), st))"

definition reconnect :: "env \<Rightarrow> service \<Rightarrow> session \<Rightarrow> (exn + unit) \<times> session" where
  "reconnect env svc st =
     (case teardown env st of
        (Inl e, st') \<Rightarrow>
          if cls e = OSError \<or> cls e = AttributeError then connect env svc st' else (Inl e, st')
      | (Inr u, st') \<Rightarrow> connect env svc st')"

text \<open>\<open>if not self._is_connection_alive(): self._reconnect()\<close>.\<close>

definition ensure_alive :: "env \<Rightarrow> service \<Rightarrow> session \<Rightarrow> (exn + unit) \<times> session" where
  "ensure_alive env svc st =
     (case is_connection_alive env st of
        (Inl e, st') \<Rightarrow> (Inl e, st')
      | (Inr alive, st') \<Rightarrow> if \<not> alive then reconnect env svc st' else (Inr (), st'))"

subsection \<open>The header decoder\<close>

definition try_decode_with_encoding :: "env \<Rightarrow> bytes \<Rightarrow> str \<Rightarrow> exn + str option" where
  "try_decode_with_encoding env val encoding =
     (case bytes_decode env encoding val of
        Inr s \<Rightarrow> Inr (Some s)
      | Inl e \<Rightarrow>
          if cls e = UnicodeDecodeError \<or> cls e = LookupError \<or> cls e = IndexError
          then Inr None else Inl e)"

text \<open>The \<open>for\<close> loop over the fallback encodings; \<open>None\<close> when the list is used up.\<close>

fun try_fallbacks :: "env \<Rightarrow> bytes \<Rightarrow> str list \<Rightarrow> exn + str option" where
  "try_fallbacks env val [] = Inr None"
| "try_fallbacks env val (fallback_encoding # rest) =
     (case try_decode_with_encoding env val fallback_encoding of
        Inl e \<Rightarrow> Inl e
      | Inr (Some result) \<Rightarrow> Inr (Some result)
      | Inr None \<Rightarrow> try_fallbacks env val rest)"

definition fallback_encodings :: "str list" where
  "fallback_encodings = [ascii ''utf-8'', ascii ''latin-1'', ascii ''iso-8859-1'']"

definition placeholder_encodings :: "str list" where
  "placeholder_encodings = [ascii ''unknown-8bit'', ascii ''unknown'']"

text \<open>What \<open>_decode_bytes_with_fallbacks\<close> does after the declared encoding.\<close>

definition decode_fallbacks :: "env \<Rightarrow> bytes \<Rightarrow> exn + str" where
  "decode_fallbacks env val =
     (case try_fallbacks env val fallback_encodings of
        Inl e \<Rightarrow> Inl e
      | Inr (Some result) \<Rightarrow> Inr result
      | Inr None \<Rightarrow> bytes_decode env (ascii ''utf-8'') val)"

definition decode_bytes_with_fallbacks :: "env \<Rightarrow> bytes \<Rightarrow> str option \<Rightarrow> exn + str" where
  "decode_bytes_with_fallbacks env val encoding =
     (case encoding of
        None \<Rightarrow> decode_fallbacks env val
      | Some enc \<Rightarrow>
          if enc \<noteq> [] \<and> lower enc \<notin> set placeholder_encodings then
            (case try_decode_with_encoding env val enc of
               Inl e \<Rightarrow> Inl e
             | Inr (Some result) \<Rightarrow> Inr result
             | Inr None \<Rightarrow> decode_fallbacks env val)
          else decode_fallbacks env val)"

text \<open>The body of the \<open>try\<close> of \<open>_decode_header_safely\<close>.\<close>

definition decode_first :: "env \<Rightarrow> str \<Rightarrow> exn + str" where
  "decode_first env header_val =
     (case decode_header env header_val of
        Inl e \<Rightarrow> Inl e
      | Inr [] \<Rightarrow> Inl (Exn IndexError (ascii ''list index out of range''))
      | Inr ((PBytes val, encoding) # rest) \<Rightarrow> decode_bytes_with_fallbacks env val encoding
      | Inr ((PStr val, encoding) # rest) \<Rightarrow> Inr val)"

definition decode_header_safely :: "env \<Rightarrow> str option \<Rightarrow> exn + str" where
  "decode_header_safely env header_val =
     (case header_val of
        None \<Rightarrow> Inr []
      | Some h \<Rightarrow>
          if h = [] then Inr []
          else (case decode_first env h of Inl e \<Rightarrow> Inr h | Inr s \<Rightarrow> Inr s))"

subsection \<open>Searching\<close>

text \<open>The \<open>for\<close> loop of \<open>_fetch_email_subject\<close> over the parts of the fetch response.\<close>

fun subject_loop :: "env \<Rightarrow> item list \<Rightarrow> str \<Rightarrow> exn + str" where
  "subject_loop env [] subject = Inr subject"
| "subject_loop env (response_part # rest) subject =
     (case response_part of
        ITuple a b \<Rightarrow>
          (case decode_header_safely env (subject_of env b) of
             Inl e \<Rightarrow> Inl e
           | Inr s \<Rightarrow> subject_loop env rest s)
      | _ \<Rightarrow> subject_loop env rest subject)"

definition subject_fields :: str where
  "subject_fields = ascii ''(BODY.PEEK[HEADER.FIELDS (SUBJECT)])''"

definition fetch_email_subject :: "env \<Rightarrow> str \<Rightarrow> session \<Rightarrow> (exn + str) \<times> session" where
  "fetch_email_subject env uid st =
     (case self_call env (Uid_fetch uid subject_fields) st of
        (Inl e, st') \<Rightarrow>
          if transport e then (Inr (ascii ''(Error fetching subject)''), st') else (Inl e, st')
      | (Inr (typ, msg_data), st') \<Rightarrow>
          if typ \<noteq> ascii ''OK'' then (Inr (ascii ''(Error fetching subject)''), st')
          else
            (case subject_loop env msg_data (ascii ''(No Subject)'') of
               Inl e \<Rightarrow>
                 if transport e then (Inr (ascii ''(Error fetching subject)''), st')
                 else (Inl e, st')
             | Inr subject \<Rightarrow> (Inr subject, st')))"

definition search_criteria :: "str \<Rightarrow> str" where
  "search_criteria name = ascii ''(FROM '' @ [34] @ name @ [34] @ ascii '')''"

text \<open>The inner function \<open>_uid_search_with_charset\<close>.\<close>

definition uid_search_with_charset ::
  "env \<Rightarrow> service \<Rightarrow> str \<Rightarrow> str option \<Rightarrow> session \<Rightarrow> (exn + reply) \<times> session" where
  "uid_search_with_charset env svc criteria charset st =
     (case ensure_alive env svc st of
        (Inl e, st') \<Rightarrow> (Inl e, st')
      | (Inr u, st') \<Rightarrow>
          (case charset of
             Some cs \<Rightarrow>
               if cs \<noteq> [] then self_call env (Uid_search (Some cs) criteria) st'
               else self_call env (Uid_search None criteria) st'
           | None \<Rightarrow> self_call env (Uid_search None criteria) st'))"

text \<open>
  What the \<open>try\<close> of the loop makes of a reply: \<open>data[0].split()\<close> when \<open>data and data[0]\<close>.
  A tuple is truthy and has no \<open>split\<close>.
\<close>

definition reply_uids :: "reply \<Rightarrow> exn + bytes list" where
  "reply_uids r =
     (case r of (typ, data) \<Rightarrow>
        if typ \<noteq> ascii ''OK'' then
          Inl (Exn IMAP4_error (ascii ''UID SEARCH failed ('' @ typ @ ascii '')''))
        else
          (case data of
             [] \<Rightarrow> Inr []
           | IBytes b # rest \<Rightarrow> if b \<noteq> [] then Inr (split_ws b) else Inr []
           | INone # rest \<Rightarrow> Inr []
           | ITuple a b # rest \<Rightarrow> Inl (Exn AttributeError (ascii ''tuple has no split''))))"

definition search_attempt ::
  "env \<Rightarrow> service \<Rightarrow> str \<Rightarrow> str option \<Rightarrow> session \<Rightarrow> (exn + bytes list) \<times> session" where
  "search_attempt env svc name charset st =
     (case uid_search_with_charset env svc (search_criteria name) charset st of
        (Inl e, st') \<Rightarrow> (Inl e, st')
      | (Inr r, st') \<Rightarrow> (reply_uids r, st'))"

text \<open>The \<open>for charset in ('UTF-8', None)\<close> loop with its handler.\<close>

fun search_loop ::
  "env \<Rightarrow> service \<Rightarrow> str \<Rightarrow> str option list \<Rightarrow> session \<Rightarrow> (exn + bytes list) \<times> session" where
  "search_loop env svc name [] st = (Inr [], st)"
| "search_loop env svc name (charset # rest) st =
     (case search_attempt env svc name charset st of
        (Inr uids, st') \<Rightarrow> (Inr uids, st')
      | (Inl e, st') \<Rightarrow>
          if transport e then
            (if charset = None then (Inr [], st') else search_loop env svc name rest st')
          else (Inl e, st'))"

definition charsets :: "str option list" where
  "charsets = [Some (ascii ''UTF-8''), None]"

definition search_sender_on_server ::
  "env \<Rightarrow> service \<Rightarrow> str \<Rightarrow> session \<Rightarrow> (exn + bytes list) \<times> session" where
  "search_sender_on_server env svc name st = search_loop env svc name charsets st"

text \<open>The dictionary with the keys \<open>id\<close>, \<open>sender\<close> and \<open>subject\<close>.\<close>

record mail =
  mail_id :: str
  mail_sender :: str
  mail_subject :: str

text \<open>
  The body of the \<open>try\<close> of \<open>_process_email_ids\<close> for one UID: \<open>None\<close> is the \<open>continue\<close>
  of a UID seen before. The set \<open>total_found_uids\<close> is changed in place, so its new value is
  returned also when the body raises.
\<close>

definition process_one ::
  "env \<Rightarrow> str \<Rightarrow> bytes \<Rightarrow> str set \<Rightarrow> session \<Rightarrow> (exn + mail option) \<times> str set \<times> session" where
  "process_one env sender_name uid_bytes total_found_uids st =
     (case decode_utf8_strict uid_bytes of
        Inl e \<Rightarrow> (Inl e, total_found_uids, st)
      | Inr uid_str \<Rightarrow>
          if uid_str \<in> total_found_uids then (Inr None, total_found_uids, st)
          else
            (case fetch_email_subject env uid_str st of
               (Inl e, st') \<Rightarrow> (Inl e, insert uid_str total_found_uids, st')
             | (Inr subject, st') \<Rightarrow>
                 (Inr (Some \<lparr>mail_id = uid_str, mail_sender = sender_name,
                              mail_subject = subject\<rparr>),
                  insert uid_str total_found_uids, st')))"

text \<open>
  The loop of \<open>_process_email_ids\<close> with its handler: a transport error makes it call
  \<open>noop\<close>; when that raises a transport error too, the first error is raised again.
\<close>

fun process_loop ::
  "env \<Rightarrow> str \<Rightarrow> bytes list \<Rightarrow> mail list \<Rightarrow> str set \<Rightarrow> session
     \<Rightarrow> (exn + mail list) \<times> str set \<times> session" where
  "process_loop env sender_name [] results total_found_uids st =
     (Inr results, total_found_uids, st)"
| "process_loop env sender_name (uid_bytes # rest) results total_found_uids st =
     (case process_one env sender_name uid_bytes total_found_uids st of
        (Inr None, seen, st') \<Rightarrow> process_loop env sender_name rest results seen st'
      | (Inr (Some m), seen, st') \<Rightarrow> process_loop env sender_name rest (results @ [m]) seen st'
      | (Inl e, seen, st') \<Rightarrow>
          if transport e then
            (case self_call env Noop st' of
               (Inl e2, st2) \<Rightarrow> if transport e2 then (Inl e, seen, st2) else (Inl e2, seen, st2)
             | (Inr r, st2) \<Rightarrow> process_loop env sender_name rest results seen st2)
          else (Inl e, seen, st'))"

definition process_email_ids ::
  "env \<Rightarrow> bytes list \<Rightarrow> str \<Rightarrow> str set \<Rightarrow> session \<Rightarrow> (exn + mail list) \<times> str set \<times> session" where
  "process_email_ids env uids_bytes sender_name total_found_uids st =
     process_loop env sender_name uids_bytes [] total_found_uids st"

text \<open>
  The statements that \<open>search_specific_senders\<close> runs for one name, first in its \<open>try\<close> and
  again in its handler after the reconnect: the search, then the processing of what it found.
\<close>

definition search_and_process ::
  "env \<Rightarrow> service \<Rightarrow> str \<Rightarrow> str set \<Rightarrow> session \<Rightarrow> (exn + mail list) \<times> str set \<times> session" where
  "search_and_process env svc name total_found_uids st =
     (case search_sender_on_server env svc name st of
        (Inl e, st') \<Rightarrow> (Inl e, total_found_uids, st')
      | (Inr uids_bytes, st') \<Rightarrow>
          if uids_bytes = [] then (Inr [], total_found_uids, st')
          else process_email_ids env uids_bytes name total_found_uids st')"

fun senders_loop ::
  "env \<Rightarrow> service \<Rightarrow> str list \<Rightarrow> mail list \<Rightarrow> str set \<Rightarrow> session
     \<Rightarrow> (exn + mail list) \<times> str set \<times> session" where
  "senders_loop env svc [] results total_found_uids st = (Inr results, total_found_uids, st)"
| "senders_loop env svc (name # rest) results total_found_uids st =
     (case search_and_process env svc name total_found_uids st of
        (Inr email_results, seen, st') \<Rightarrow>
          senders_loop env svc rest (results @ email_results) seen st'
      | (Inl e, seen, st') \<Rightarrow>
          if transport e then
            (case reconnect env svc st' of
               (Inl e2, st2) \<Rightarrow> senders_loop env svc rest results seen st2
             | (Inr u, st2) \<Rightarrow>
                 (case search_and_process env svc name seen st2 of
                    (Inr email_results, seen2, st3) \<Rightarrow>
                      senders_loop env svc rest (results @ email_results) seen2 st3
                  | (Inl e3, seen2, st3) \<Rightarrow> senders_loop env svc rest results seen2 st3))
          else (Inl e, seen, st'))"

definition search_specific_senders ::
  "env \<Rightarrow> service \<Rightarrow> str list \<Rightarrow> session \<Rightarrow> (exn + mail list) \<times> session" where
  "search_specific_senders env svc sender_names st =
     (case senders_loop env svc sender_names [] {} st of
        (r, seen, st') \<Rightarrow> (r, st'))"

subsection \<open>Deleting\<close>

definition store_deleted :: "str \<Rightarrow> cmd" where
  "store_deleted uid = Uid_store uid (ascii ''+FLAGS'') ([92] @ ascii ''Deleted'')"

definition delete_single_uid :: "env \<Rightarrow> service \<Rightarrow> str \<Rightarrow> session \<Rightarrow> (exn + unit) \<times> session" where
  "delete_single_uid env svc uid st =
     (case ensure_alive env svc st of
        (Inl e, st') \<Rightarrow> (Inl e, st')
      | (Inr u, st') \<Rightarrow>
          (case self_call env (store_deleted uid) st' of
             (Inl e, st2) \<Rightarrow> (Inl e, st2)
           | (Inr r, st2) \<Rightarrow> (Inr (), st2)))"

definition retry_delete_single_uid ::
  "env \<Rightarrow> service \<Rightarrow> str \<Rightarrow> session \<Rightarrow> (exn + unit) \<times> session" where
  "retry_delete_single_uid env svc uid st =
     (case reconnect env svc st of
        (Inl e, st') \<Rightarrow> (Inl e, st')
      | (Inr u, st') \<Rightarrow>
          (case self_call env (store_deleted uid) st' of
             (Inl e, st2) \<Rightarrow> (Inl e, st2)
           | (Inr r, st2) \<Rightarrow> (Inr (), st2)))"

fun process_deletion_batch ::
  "env \<Rightarrow> service \<Rightarrow> str list \<Rightarrow> session \<Rightarrow> (exn + unit) \<times> session" where
  "process_deletion_batch env svc [] st = (Inr (), st)"
| "process_deletion_batch env svc (uid # rest) st =
     (case delete_single_uid env svc uid st of
        (Inr u, st') \<Rightarrow> process_deletion_batch env svc rest st'
      | (Inl e, st') \<Rightarrow>
          if transport e then
            (case retry_delete_single_uid env svc uid st' of
               (r, st2) \<Rightarrow> process_deletion_batch env svc rest st2)
          else (Inl e, st'))"

definition expunge_with_retry :: "env \<Rightarrow> service \<Rightarrow> session \<Rightarrow> (exn + unit) \<times> session" where
  "expunge_with_retry env svc st =
     (case (case ensure_alive env svc st of
              (Inl e, st') \<Rightarrow> (Inl e, st')
            | (Inr u, st') \<Rightarrow> self_call env Expunge st') of
        (Inr r, st2) \<Rightarrow> (Inr (), st2)
      | (Inl e, st2) \<Rightarrow>
          if transport e then
            (case reconnect env svc st2 of
               (Inl e2, st3) \<Rightarrow> (Inr (), st3)
             | (Inr u, st3) \<Rightarrow> (case self_call env Expunge st3 of (r, st4) \<Rightarrow> (Inr (), st4)))
          else (Inl e, st2))"

text \<open>\<open>range(0, stop, step)\<close> for a positive step, and the slice \<open>xs[k:k+n]\<close>.\<close>

function range_from :: "nat \<Rightarrow> nat \<Rightarrow> nat \<Rightarrow> nat list" where
  "range_from k stop step =
     (if 0 < step \<and> k < stop then k # range_from (k + step) stop step else [])"
  by pat_completeness auto
termination
  by (relation "measure (\<lambda>(k, stop, step). stop - k)") auto

declare range_from.simps [simp del]

definition slice :: "'a list \<Rightarrow> nat \<Rightarrow> nat \<Rightarrow> 'a list" where
  "slice xs k n = take n (drop k xs)"

text \<open>The batches \<open>email_ids[k:k+batch_size]\<close> for \<open>k in range(0, len(email_ids), batch_size)\<close>.\<close>

definition batches :: "'a list \<Rightarrow> nat \<Rightarrow> 'a list list" where
  "batches email_ids batch_size =
     map (\<lambda>k. slice email_ids k batch_size) (range_from 0 (length email_ids) batch_size)"

fun batch_loop :: "env \<Rightarrow> service \<Rightarrow> str list list \<Rightarrow> session \<Rightarrow> (exn + unit) \<times> session" where
  "batch_loop env svc [] st = (Inr (), st)"
| "batch_loop env svc (batch # rest) st =
     (case process_deletion_batch env svc batch st of
        (Inl e, st') \<Rightarrow> (Inl e, st')
      | (Inr u, st') \<Rightarrow> batch_loop env svc rest st')"

text \<open>
  \<open>delete_emails\<close>. A zero \<open>batch_size\<close> makes \<open>range\<close> raise \<open>ValueError\<close>; a negative one
  gives an empty range, so only the expunge runs.
\<close>

definition delete_emails :: "env \<Rightarrow> service \<Rightarrow> str list \<Rightarrow> int \<Rightarrow> session \<Rightarrow> (exn + unit) \<times> session" where
  "delete_emails env svc email_ids batch_size st =
     (if email_ids = [] then (Inr (), st)
      else
        (case ensure_alive env svc st of
           (Inl e, st') \<Rightarrow> (Inl e, st')
         | (Inr u, st') \<Rightarrow>
             if batch_size = 0 then
               (Inl (Exn ValueError (ascii ''range() arg 3 must not be zero'')), st')
             else
               (case batch_loop env svc
                       (if batch_size < 0 then [] else batches email_ids (nat batch_size)) st' of
                  (Inl e, st2) \<Rightarrow> (Inl e, st2)
                | (Inr u2, st2) \<Rightarrow> expunge_with_retry env svc st2)))"

definition close_service :: "env \<Rightarrow> session \<Rightarrow> session" where
  "close_service env st =
     (if fst st then
        (case self_call env Close st of
           (r, st1) \<Rightarrow> (case self_call env Logout st1 of (r2, st2) \<Rightarrow> st2))
      else st)"

section \<open>main.py\<close>

text \<open>
  \<open>clean_inbox\<close> for a \<open>SenderNameFilter\<close> over \<open>sender_names\<close> and a given access token, from
  a fresh service. Whatever is raised is printed by the outer handler after the \<open>finally\<close>
  has closed the service, so the run always ends with the session it leaves.
\<close>

definition clean_inbox :: "env \<Rightarrow> service \<Rightarrow> str list \<Rightarrow> bool \<Rightarrow> session" where
  "clean_inbox env svc sender_names move_to_deleted =
     (case connect env svc (False, []) of
        (Inl e, st1) \<Rightarrow> close_service env st1
      | (Inr u, st1) \<Rightarrow>
          (case search_specific_senders env svc sender_names st1 of
             (Inl e, st2) \<Rightarrow> close_service env st2
           | (Inr emails, st2) \<Rightarrow>
               (let ids_to_delete = map mail_id emails in
                if move_to_deleted \<and> ids_to_delete \<noteq> [] then
                  (case delete_emails env svc ids_to_delete 100 st2 of
                     (r, st3) \<Rightarrow> close_service env st3)
                else close_service env st2)))"

section \<open>Observing a run\<close>

text \<open>
  Predicates on the events of the log, and small scripted environments for the examples:
  \<open>fixture call lines\<close> answers the commands with \<open>call\<close> and \<open>readline\<close> with the lines
  of the script in turn, opens and sends without error, hands out the tag \<open>A1\<close>, decodes
  bytes as strict UTF-8 and strips ASCII whitespace.
\<close>

definition is_read :: "event \<Rightarrow> bool" where
  "is_read ev = (case ev of Read_line r \<Rightarrow> True | _ \<Rightarrow> False)"

definition keeps_reading :: "env \<Rightarrow> str \<Rightarrow> event \<Rightarrow> bool" where
  "keeps_reading env tag_str ev =
     (case ev of
        Read_line r \<Rightarrow>
          (case line_text env r of Inl e \<Rightarrow> False | Inr s \<Rightarrow> s \<noteq> [] \<and> \<not> startswith s tag_str)
      | _ \<Rightarrow> False)"

definition strip_ascii :: "str \<Rightarrow> str" where
  "strip_ascii s = rev (dropWhile (\<lambda>c. c \<in> set [9, 10, 11, 12, 13, 32]) (rev (dropWhile (\<lambda>c. c \<in> set [9, 10, 11, 12, 13, 32]) s)))"

definition count_reads :: "log \<Rightarrow> nat" where
  "count_reads lg = length (filter is_read lg)"

definition fixture :: "(log \<Rightarrow> cmd \<Rightarrow> exn + reply) \<Rightarrow> raw_line list \<Rightarrow> env" where
  "fixture call lines =
     \<lparr> imap_open = (\<lambda>lg s. None),
       imap_call = call,
       imap_new_tag = (\<lambda>lg. Inr (ascii ''A1'')),
       imap_send = (\<lambda>lg b. None),
       imap_readline = (\<lambda>lg. if count_reads lg < length lines then Inr (lines ! count_reads lg) else Inr (LBytes [])),
       bytes_decode = (\<lambda>enc b. decode_utf8_strict b),
       str_strip = strip_ascii,
       decode_header = (\<lambda>h. Inr [(PStr h, None)]),
       subject_of = utf8_decode \<rparr>"

definition dead_call :: "log \<Rightarrow> cmd \<Rightarrow> exn + reply" where
  "dead_call lg c = Inl (Exn AttributeError [])"





















section \<open>Properties of the authentication exchange\<close>





lemma read_imap_response_log:
  "read_imap_response env lg = (line_text env (imap_readline env lg), lg @ [Read_line (imap_readline env lg)])"
  by (simp add: read_imap_response_def Let_def)

lemma read_final_loop_log:
  "\<exists>delta. snd (read_final_loop env tag n a acc lg) = lg @ delta \<and> length delta \<le> n - a
     \<and> list_all is_read delta \<and> list_all (keeps_reading env tag) (butlast delta)"
proof (induction env tag n a acc lg rule: read_final_loop.induct)
  case (1 env tag_str max_attempts attempts response_lines lg)
  let ?r = "imap_readline env lg"
  let ?lg' = "lg @ [Read_line ?r]"
  show ?case
  proof (cases "attempts < max_attempts")
    case False
    then show ?thesis by (subst read_final_loop.simps) simp
  next
    case True
    show ?thesis
    proof (cases "line_text env ?r")
      case (Inl e)
      with True show ?thesis
        by (subst read_final_loop.simps) (simp add: read_imap_response_log is_read_def)
    next
      case (Inr response)
      show ?thesis
      proof (cases "response = [] \<or> startswith response tag_str")
        case stop: True
        with True Inr show ?thesis
          by (subst read_final_loop.simps) (auto simp: read_imap_response_log is_read_def)
      next
        case go: False
        have kr: "keeps_reading env tag_str (Read_line ?r)"
          using go Inr by (simp add: keeps_reading_def)
        from 1[OF True read_imap_response_log[symmetric] Inr] go
        obtain delta where d: "snd (read_final_loop env tag_str max_attempts (attempts + 1) (response_lines @ [response]) ?lg') = ?lg' @ delta"
           "length delta \<le> max_attempts - (attempts + 1)" "list_all is_read delta"
           "list_all (keeps_reading env tag_str) (butlast delta)"
          by auto
        have eq: "read_final_loop env tag_str max_attempts attempts response_lines lg
             = read_final_loop env tag_str max_attempts (attempts + 1) (response_lines @ [response]) ?lg'"
          using True Inr go by (subst read_final_loop.simps) (simp add: read_imap_response_log)
        have "list_all (keeps_reading env tag_str) (butlast (Read_line ?r # delta))"
          using kr d(4) by (cases delta) auto
        have "list_all is_read (Read_line ?r # delta)"
          using d(3) by (simp add: is_read_def)
        moreover have "length (Read_line ?r # delta) \<le> max_attempts - attempts"
          using d(2) True by simp
        moreover have "snd (read_final_loop env tag_str max_attempts attempts response_lines lg)
                         = lg @ Read_line ?r # delta"
          unfolding eq using d(1) by simp
        ultimately show ?thesis
          using \<open>list_all (keeps_reading env tag_str) (butlast (Read_line ?r # delta))\<close>
          by blast
      qed
    qed
  qed
qed

text \<open>
  C9: the reader of the final response performs at most \<open>max_attempts\<close> reads, ten as the
  exchange calls it, and performs nothing else; every line before the last one read was a
  non-empty line that does not begin with the tag, so an empty line, a line beginning with
  the tag or an error ends the reading at once. The reader is a total function: it returns
  for every server, also one that never stops sending lines.
\<close>

theorem read_final_auth_response_bounded:
  "\<exists>delta. snd (read_final_auth_response env tag_str max_attempts lg) = lg @ delta
     \<and> length delta \<le> max_attempts
     \<and> list_all is_read delta
     \<and> list_all (keeps_reading env tag_str) (butlast delta)
     \<and> default_max_attempts = 10"
proof -
  obtain delta where d: "snd (read_final_loop env tag_str max_attempts 0 [] lg) = lg @ delta"
    "length delta \<le> max_attempts - 0" "list_all is_read delta"
    "list_all (keeps_reading env tag_str) (butlast delta)"
    using read_final_loop_log[of env tag_str max_attempts 0 "[]" lg] by blast
  have "snd (read_final_auth_response env tag_str max_attempts lg)
          = snd (read_final_loop env tag_str max_attempts 0 [] lg)"
    by (simp add: read_final_auth_response_def split: prod.splits sum.splits)
  with d show ?thesis by (auto simp: default_max_attempts_def)
qed


lemma sasl_example:
  "sasl_auth_bytes (ascii ''a@b.c'') (ascii ''tok'') = Inr (ascii ''dXNlcj1hQGIuYwFhdXRoPUJlYXJlciB0b2sBAQ=='')"
  by code_simp


text \<open>
  C8: whenever the built-in \<open>authenticate\<close> call raises, whatever the class of the
  exception, or returns a status other than \<open>OK\<close>, \<open>authenticate_oauth2\<close> continues as the
  manual implementation does from the log so far.
\<close>

theorem authenticate_oauth2_falls_back:
  assumes "sasl_auth_bytes email_address access_token = Inr auth_bytes"
      and "imap_call env lg (Authenticate (ascii ''XOAUTH2'') auth_bytes) = r"
      and "(\<exists>e. r = Inl e) \<or> (\<exists>typ data. r = Inr (typ, data) \<and> typ \<noteq> ascii ''OK'')"
  shows "authenticate_oauth2 env email_address access_token lg =
           authenticate_oauth2_manual env auth_bytes
             (lg @ [Called (Authenticate (ascii ''XOAUTH2'') auth_bytes) r])"
  using assms
  by (auto simp: authenticate_oauth2_def conn_call_def Let_def)


theorem authenticate_oauth2_falls_back_witness:
  "fst (authenticate_oauth2 (fixture dead_call [LBytes ''+'', LBytes ''A1 OK Success''])
          (ascii ''a@b.c'') (ascii ''tok'') []) = Inr True"
proof -
  let ?env = "fixture dead_call [LBytes ''+'', LBytes ''A1 OK Success'']"
  let ?auth = "ascii ''dXNlcj1hQGIuYwFhdXRoPUJlYXJlciB0b2sBAQ==''"
  have c: "imap_call ?env [] (Authenticate (ascii ''XOAUTH2'') ?auth) = Inl (Exn AttributeError [])"
    by (simp add: fixture_def dead_call_def)
  have m: "fst (authenticate_oauth2_manual ?env ?auth
             ([] @ [Called (Authenticate (ascii ''XOAUTH2'') ?auth) (Inl (Exn AttributeError []))]))
           = Inr True"
    by code_simp
  show ?thesis
    using authenticate_oauth2_falls_back[OF sasl_example c] m by simp
qed


section \<open>Properties of the SASL string\<close>

lemma of_char_lt_256: "(of_char c :: nat) < 256"
proof -
  have "(of_char c :: nat) mod 256 = of_char c" by simp
  then show ?thesis by (metis mod_less_divisor zero_less_numeral)
qed

lemma b64_index_char: "i < 64 \<Longrightarrow> b64_index (b64_char i) = Some i"
  by (auto simp: b64_index_def b64_char_def Let_def)

lemma b64_index_pad: "b64_index (CHR ''='') = None"
  by (simp add: b64_index_def)

lemma b64_char_not_pad: "i < 64 \<Longrightarrow> b64_char i \<noteq> CHR ''=''"
  using b64_index_char[of i] b64_index_pad by auto


lemma group3:
  fixes x y z :: nat
  assumes "x < 256" "y < 256" "z < 256"
  shows "x div 4 < 64 \<and> x mod 4 * 16 + y div 16 < 64 \<and> y mod 16 * 4 + z div 64 < 64 \<and> z mod 64 < 64
    \<and> x mod 4 * 16 < 64 \<and> y mod 16 * 4 < 64"
  using assms by auto

lemma group3a:
  fixes x y z :: nat
  assumes "y < 256" 
  shows "x div 4 * 4 + (x mod 4 * 16 + y div 16) div 16 = x"
proof -
  have "y div 16 < 16" using assms by auto
  then have "(x mod 4 * 16 + y div 16) div 16 = x mod 4" by auto
  then show ?thesis by auto
qed

lemma group3b:
  fixes x y z :: nat
  assumes "y < 256" "z < 256"
  shows "(x mod 4 * 16 + y div 16) mod 16 * 16 + (y mod 16 * 4 + z div 64) div 4 = y"
proof -
  have "y div 16 < 16" using assms by auto
  then have a: "(x mod 4 * 16 + y div 16) mod 16 = y div 16" by auto
  have "z div 64 < 4" using assms by auto
  then have b: "(y mod 16 * 4 + z div 64) div 4 = y mod 16" by auto
  show ?thesis unfolding a b by auto
qed

lemma group3c:
  fixes x y z :: nat
  assumes "z < 256"
  shows "(y mod 16 * 4 + z div 64) mod 4 * 64 + z mod 64 = z"
proof -
  have "z div 64 < 4" using assms by auto
  then have a: "(y mod 16 * 4 + z div 64) mod 4 = z div 64" by auto
  show ?thesis unfolding a by auto
qed

lemma group3d:
  fixes x y :: nat
  shows "x div 4 * 4 + (x mod 4 * 16) div 16 = x"
  by auto

lemma group3e:
  fixes x y :: nat
  assumes "y < 256"
  shows "(x mod 4 * 16 + y div 16) mod 16 * 16 + (y mod 16 * 4) div 4 = y"
proof -
  have "y div 16 < 16" using assms by auto
  then have a: "(x mod 4 * 16 + y div 16) mod 16 = y div 16" by auto
  show ?thesis unfolding a by auto
qed


lemma b64decode_group:
  assumes "i < 64" "j < 64" "k < 64" "l < 64"
  shows "b64decode (b64_char i # b64_char j # b64_char k # b64_char l # rest) =
           (case b64decode rest of
              None \<Rightarrow> None
            | Some bs \<Rightarrow>
                Some ([char_of (i * 4 + j div 16), char_of (j mod 16 * 16 + k div 4),
                       char_of (k mod 4 * 64 + l)] @ bs))"
  using assms by (simp add: b64_index_char b64_char_not_pad)

lemma b64decode_pad1:
  assumes "i < 64" "j < 64" "k < 64"
  shows "b64decode [b64_char i, b64_char j, b64_char k, CHR ''=''] =
           Some [char_of (i * 4 + j div 16), char_of (j mod 16 * 16 + k div 4)]"
  using assms by (simp add: b64_index_char b64_char_not_pad)

lemma b64decode_pad2:
  assumes "i < 64" "j < 64"
  shows "b64decode [b64_char i, b64_char j, CHR ''='', CHR ''=''] =
           Some [char_of (i * 4 + j div 16)]"
  using assms by (simp add: b64_index_char b64_char_not_pad)

lemma b64_group_full:
  fixes x y z :: nat
  assumes x: "x < 256" and y: "y < 256" and z: "z < 256"
  shows "b64decode (b64_char (x div 4) # b64_char (x mod 4 * 16 + y div 16)
            # b64_char (y mod 16 * 4 + z div 64) # b64_char (z mod 64) # rest) =
           (case b64decode rest of
              None \<Rightarrow> None
            | Some bs \<Rightarrow> Some ([char_of x, char_of y, char_of z] @ bs))"
proof -
  have l: "x div 4 < 64" "x mod 4 * 16 + y div 16 < 64" "y mod 16 * 4 + z div 64 < 64"
    "z mod 64 < 64"
    using group3[OF x y z] by blast+
  show ?thesis
    unfolding b64decode_group[OF l] group3a[OF y] group3b[OF y z] group3c[OF z] ..
qed

lemma b64_group_two:
  fixes x y :: nat
  assumes x: "x < 256" and y: "y < 256"
  shows "b64decode [b64_char (x div 4), b64_char (x mod 4 * 16 + y div 16),
            b64_char (y mod 16 * 4), CHR ''=''] = Some [char_of x, char_of y]"
proof -
  have l: "x div 4 < 64" "x mod 4 * 16 + y div 16 < 64" "y mod 16 * 4 < 64"
    using group3[OF x y y] by blast+
  show ?thesis
    unfolding b64decode_pad1[OF l] group3a[OF y] group3e[OF y] ..
qed

lemma b64_group_one:
  fixes x :: nat
  assumes x: "x < 256"
  shows "b64decode [b64_char (x div 4), b64_char (x mod 4 * 16), CHR ''='', CHR ''='']
           = Some [char_of x]"
proof -
  have l: "x div 4 < 64" "x mod 4 * 16 < 64"
    using group3[OF x x x] by blast+
  show ?thesis
    unfolding b64decode_pad2[OF l] group3d ..
qed

lemma b64_round_trip: "b64decode (b64encode bs) = Some bs"
proof (induction bs rule: b64encode.induct)
  case 1
  show ?case by simp
next
  case (2 a)
  have "b64encode [a] = [b64_char (of_char a div 4), b64_char (of_char a mod 4 * 16),
          CHR ''='', CHR ''='']"
    by (simp add: Let_def)
  then show ?case
    using b64_group_one[OF of_char_lt_256[of a]] by (simp del: b64decode.simps)
next
  case (3 a b)
  have "b64encode [a, b] = [b64_char (of_char a div 4),
          b64_char (of_char a mod 4 * 16 + of_char b div 16), b64_char (of_char b mod 16 * 4),
          CHR ''='']"
    by (simp add: Let_def)
  then show ?case
    using b64_group_two[OF of_char_lt_256[of a] of_char_lt_256[of b]]
    by (simp del: b64decode.simps)
next
  case (4 a b c rest)
  have "b64encode (a # b # c # rest) = b64_char (of_char a div 4)
          # b64_char (of_char a mod 4 * 16 + of_char b div 16)
          # b64_char (of_char b mod 16 * 4 + of_char c div 64)
          # b64_char (of_char c mod 64) # b64encode rest"
    by (simp add: Let_def)
  then show ?case
    using b64_group_full[OF of_char_lt_256[of a] of_char_lt_256[of b] of_char_lt_256[of c],
        of "b64encode rest"] 4
    by (simp del: b64decode.simps)
qed

lemma oc: "n < 256 \<Longrightarrow> (of_char (char_of n :: char) :: nat) = n"
  by simp

lemma dec1:
  assumes "c < 0x80"
  shows "utf8_decode (char_of c # rest) = map_option ((#) c) (utf8_decode rest)"
proof -
  have "(of_char (char_of c :: char) :: nat) = c" using assms by (intro oc) simp
  then show ?thesis using assms by (simp add: Let_def)
qed

lemma dec2:
  assumes "0x80 \<le> c" "c < 0x800"
  shows "utf8_decode (char_of (0xC0 + c div 64) # char_of (0x80 + c mod 64) # rest)
           = map_option ((#) c) (utf8_decode rest)"
proof -
  have d: "c div 64 < 32" using assms by (intro less_mult_imp_div_less) simp
  have a: "(of_char (char_of (0xC0 + c div 64) :: char) :: nat) = 0xC0 + c div 64"
    using d by (intro oc) simp
  have m: "c mod 64 < 64" by simp
  have b: "(of_char (char_of (0x80 + c mod 64) :: char) :: nat) = 0x80 + c mod 64"
    using m by (intro oc) linarith
  have v: "c div 64 * 64 + c mod 64 = c" by simp
  show ?thesis
    using assms d m v by (simp add: Let_def a b cont_def del: div_mult_mod_eq)
qed

lemma dec3:
  assumes "0x800 \<le> c" "c < 0x10000" "\<not> (0xD800 \<le> c \<and> c < 0xE000)"
  shows "utf8_decode (char_of (0xE0 + c div 4096) # char_of (0x80 + c div 64 mod 64)
            # char_of (0x80 + c mod 64) # rest)
           = map_option ((#) c) (utf8_decode rest)"
proof -
  have d: "c div 4096 < 16" using assms by (intro less_mult_imp_div_less) simp
  have a: "(of_char (char_of (0xE0 + c div 4096) :: char) :: nat) = 0xE0 + c div 4096"
    using d by (intro oc) simp
  have m2: "c div 64 mod 64 < 64" by simp
  have b: "(of_char (char_of (0x80 + c div 64 mod 64) :: char) :: nat) = 0x80 + c div 64 mod 64"
    using m2 by (intro oc) linarith
  have m: "c mod 64 < 64" by simp
  have b2: "(of_char (char_of (0x80 + c mod 64) :: char) :: nat) = 0x80 + c mod 64"
    using m by (intro oc) linarith
  have "c div 4096 = c div 64 div 64" by (simp add: div_mult2_eq[symmetric])
  then have "c div 4096 * 64 + c div 64 mod 64 = c div 64" by simp
  then have "(c div 4096 * 64 + c div 64 mod 64) * 64 + c mod 64 = c" by simp
  then have v: "c div 4096 * 4096 + c div 64 mod 64 * 64 + c mod 64 = c" by (simp add: algebra_simps)
  show ?thesis
    using assms d m m2 v by (simp add: Let_def a b b2 cont_def del: div_mult_mod_eq)
qed


lemma dec4:
  assumes "0x10000 \<le> c" "c < 0x110000"
  shows "utf8_decode (char_of (0xF0 + c div 262144) # char_of (0x80 + c div 4096 mod 64)
            # char_of (0x80 + c div 64 mod 64) # char_of (0x80 + c mod 64) # rest)
           = map_option ((#) c) (utf8_decode rest)"
proof -
  have d: "c div 262144 < 5" using assms by (intro less_mult_imp_div_less) simp
  have a: "(of_char (char_of (0xF0 + c div 262144) :: char) :: nat) = 0xF0 + c div 262144"
    using d by (intro oc) simp
  have m3: "c div 4096 mod 64 < 64" by simp
  have b: "(of_char (char_of (0x80 + c div 4096 mod 64) :: char) :: nat) = 0x80 + c div 4096 mod 64"
    using m3 by (intro oc) linarith
  have m2: "c div 64 mod 64 < 64" by simp
  have b2: "(of_char (char_of (0x80 + c div 64 mod 64) :: char) :: nat) = 0x80 + c div 64 mod 64"
    using m2 by (intro oc) linarith
  have m: "c mod 64 < 64" by simp
  have b3: "(of_char (char_of (0x80 + c mod 64) :: char) :: nat) = 0x80 + c mod 64"
    using m by (intro oc) linarith
  have "c div 4096 = c div 64 div 64" by (simp add: div_mult2_eq[symmetric])
  then have e1: "c div 4096 * 64 + c div 64 mod 64 = c div 64" by simp
  have "c div 262144 = c div 4096 div 64" by (simp add: div_mult2_eq[symmetric])
  then have e2: "c div 262144 * 64 + c div 4096 mod 64 = c div 4096" by simp
  have "((c div 262144 * 64 + c div 4096 mod 64) * 64 + c div 64 mod 64) * 64 + c mod 64 = c"
    unfolding e2 e1 by simp
  then have v: "c div 262144 * 262144 + c div 4096 mod 64 * 4096 + c div 64 mod 64 * 64
                  + c mod 64 = c"
    by (simp add: algebra_simps)
  show ?thesis
    using assms d m m2 m3 v by (simp add: Let_def a b b2 b3 cont_def del: div_mult_mod_eq)
qed

lemma utf8_decode_cp:
  assumes "utf8_encode_cp c = Inr b" "c < 0x110000"
  shows "utf8_decode (b @ rest) = map_option ((#) c) (utf8_decode rest)"
proof -
  consider "c < 0x80" | "0x80 \<le> c" "c < 0x800"
    | "0x800 \<le> c" "c < 0x10000" "\<not> (0xD800 \<le> c \<and> c < 0xE000)"
    | "0xD800 \<le> c" "c < 0xE000" | "0x10000 \<le> c"
    by linarith
  then show ?thesis
  proof cases
    case 1
    then have "b = [char_of c]" using assms by (simp add: utf8_encode_cp_def)
    then show ?thesis using dec1[OF 1] by (simp del: utf8_decode.simps)
  next
    case 2
    then have "b = [char_of (0xC0 + c div 64), char_of (0x80 + c mod 64)]"
      using assms by (simp add: utf8_encode_cp_def)
    then show ?thesis using dec2[OF 2] by (simp del: utf8_decode.simps)
  next
    case 3
    then have "b = [char_of (0xE0 + c div 4096), char_of (0x80 + c div 64 mod 64),
                    char_of (0x80 + c mod 64)]"
      using assms by (auto simp: utf8_encode_cp_def)
    then show ?thesis using dec3[OF 3] by (simp del: utf8_decode.simps)
  next
    case 4
    then show ?thesis using assms by (simp add: utf8_encode_cp_def)
  next
    case 5
    then have "b = [char_of (0xF0 + c div 262144), char_of (0x80 + c div 4096 mod 64),
                    char_of (0x80 + c div 64 mod 64), char_of (0x80 + c mod 64)]"
      using assms by (simp add: utf8_encode_cp_def)
    then show ?thesis using dec4[OF 5 assms(2)] by (simp del: utf8_decode.simps)
  qed
qed

lemma utf8_round_trip:
  "utf8_encode s = Inr b \<Longrightarrow> is_str s \<Longrightarrow> utf8_decode b = Some s"
proof (induction s arbitrary: b)
  case Nil
  then show ?case by simp
next
  case (Cons c cs)
  from Cons.prems(1) obtain b1 b2 where e: "utf8_encode_cp c = Inr b1" "utf8_encode cs = Inr b2"
    and b: "b = b1 @ b2"
    by (auto split: sum.splits)
  from Cons.prems(2) have c: "c < 0x110000" and cs: "is_str cs" by (simp_all add: is_str_def)
  show ?case
    unfolding b utf8_decode_cp[OF e(1) c] Cons.IH[OF e(2) cs] by simp
qed

lemma utf8_encode_defined:
  "\<not> list_ex surrogate s \<Longrightarrow> \<exists>b. utf8_encode s = Inr b"
proof (induction s)
  case Nil
  show ?case by simp
next
  case (Cons c cs)
  then obtain b where "utf8_encode cs = Inr b" by auto
  moreover from Cons.prems have "\<exists>b1. utf8_encode_cp c = Inr b1"
    by (simp add: utf8_encode_cp_def surrogate_def)
  ultimately show ?case by auto
qed

lemma utf8_encode_surrogate:
  "list_ex surrogate s \<Longrightarrow> \<exists>e. utf8_encode s = Inl e \<and> cls e = UnicodeEncodeError"
proof (induction s)
  case Nil
  then show ?case by simp
next
  case (Cons c cs)
  show ?case
  proof (cases "utf8_encode_cp c")
    case (Inl e)
    then have "cls e = UnicodeEncodeError"
      by (auto simp: utf8_encode_cp_def split: if_splits)
    with Inl show ?thesis by simp
  next
    case (Inr b1)
    then have "\<not> surrogate c" by (auto simp: utf8_encode_cp_def surrogate_def split: if_splits)
    with Cons obtain e where "utf8_encode cs = Inl e" "cls e = UnicodeEncodeError" by auto
    with Inr show ?thesis by simp
  qed
qed

lemma map_char_of_ascii: "map char_of (ascii b) = b"
  by (simp add: ascii_def comp_def)

lemma is_str_ascii: "is_str (ascii b)"
proof -
  have "(of_char c :: nat) < 0x110000" for c :: char
  proof -
    have "(of_char c :: nat) mod 256 = of_char c" by simp
    then have "(of_char c :: nat) < 256" by (metis mod_less_divisor zero_less_numeral)
    then show ?thesis by linarith
  qed
  then show ?thesis by (simp add: is_str_def ascii_def list_all_iff)
qed

lemma is_str_append: "is_str (a @ b) \<longleftrightarrow> is_str a \<and> is_str b"
  by (simp add: is_str_def)

lemma sasl_auth_bytes_surrogate:
  "sasl_auth_bytes [0xD800] (ascii ''tok'')
     = Inl (Exn UnicodeEncodeError (ascii ''surrogates not allowed''))"
  by (simp add: sasl_auth_bytes_def auth_string_def utf8_encode_cp_def ascii_def)

text \<open>
  C4: for every account name and access token, the SASL string that \<open>authenticate_oauth2\<close>
  builds decodes, as base64 and then as UTF-8, to exactly
  \<open>user=<identity>\x01auth=Bearer <token>\x01\x01\<close>; and the string is built whenever neither
  text holds a surrogate code point (the one case in which \<open>encode('utf-8')\<close> raises).
\<close>

theorem sasl_round_trip:
  assumes "is_str email_address" and "is_str access_token"
  shows "(\<not> list_ex surrogate (email_address @ access_token)
            \<longrightarrow> (\<exists>s. sasl_auth_bytes email_address access_token = Inr s))
       \<and> (\<forall>s. sasl_auth_bytes email_address access_token = Inr s \<longrightarrow>
             b64decode_text s
               = Some (ascii ''user='' @ email_address @ [1] @ ascii ''auth=Bearer ''
                         @ access_token @ [1, 1]))"
proof (intro conjI allI impI)
  let ?a = "auth_string email_address access_token"
  have "is_str [1]" "is_str [1, 1]" by (simp_all add: is_str_def)
  then have str: "is_str ?a"
    using assms unfolding auth_string_def is_str_append by (simp add: is_str_ascii)
  {
    assume "\<not> list_ex surrogate (email_address @ access_token)"
    moreover have "\<not> list_ex surrogate (ascii b)" for b
    proof -
      have "\<not> surrogate (of_char x)" for x :: char
        using of_char_lt_256[of x] unfolding surrogate_def by linarith
      then show ?thesis by (simp add: ascii_def list_ex_iff)
    qed
    ultimately have "\<not> list_ex surrogate ?a"
      by (simp add: auth_string_def surrogate_def)
    then obtain b where "utf8_encode ?a = Inr b" using utf8_encode_defined by blast
    then show "\<exists>s. sasl_auth_bytes email_address access_token = Inr s"
      by (simp add: sasl_auth_bytes_def)
  }
  {
    fix s assume "sasl_auth_bytes email_address access_token = Inr s"
    then obtain b where b: "utf8_encode ?a = Inr b" and s: "s = ascii (b64encode b)"
      by (auto simp: sasl_auth_bytes_def split: sum.splits)
    have "b64decode_text s = utf8_decode b"
      by (simp add: b64decode_text_def s map_char_of_ascii b64_round_trip)
    also have "\<dots> = Some ?a" by (rule utf8_round_trip[OF b str])
    finally show "b64decode_text s = Some (ascii ''user='' @ email_address @ [1]
        @ ascii ''auth=Bearer '' @ access_token @ [1, 1])"
      by (simp add: auth_string_def)
  }
qed


theorem sasl_round_trip_witness:
  "sasl_auth_bytes [106, 252, 114, 103, 101, 110, 64, 120, 46, 100, 101] [8364, 128512]
     = Inr (ascii ''dXNlcj1qw7xyZ2VuQHguZGUBYXV0aD1CZWFyZXIg4oKs8J+YgAEB'')
   \<and> b64decode_text (ascii ''dXNlcj1qw7xyZ2VuQHguZGUBYXV0aD1CZWFyZXIg4oKs8J+YgAEB'')
     = Some (ascii ''user='' @ [106, 252, 114, 103, 101, 110, 64, 120, 46, 100, 101] @ [1]
               @ ascii ''auth=Bearer '' @ [8364, 128512] @ [1, 1])"
proof -
  have s: "sasl_auth_bytes [106, 252, 114, 103, 101, 110, 64, 120, 46, 100, 101] [8364, 128512]
     = Inr (ascii ''dXNlcj1qw7xyZ2VuQHguZGUBYXV0aD1CZWFyZXIg4oKs8J+YgAEB'')"
    by (simp add: sasl_auth_bytes_def auth_string_def ascii_def utf8_encode_cp_def
        b64_char_def Let_def)
  have i: "is_str [106, 252, 114, 103, 101, 110, 64, 120, 46, 100, 101]" "is_str [8364, 128512]"
    by (simp_all add: is_str_def)
  from sasl_round_trip[OF i] s show ?thesis by blast
qed

section \<open>Properties of the header decoder\<close>









section \<open>What each operation adds to the log\<close>














lemma connect_connected: "fst (connect env svc st) = Inr u \<Longrightarrow> fst (snd (connect env svc st))"
  by (auto simp: connect_def Let_def split: prod.splits sum.splits option.splits)


lemma self_call_conn: "fst (snd (self_call env c st)) = fst st"
  by (auto simp: self_call_def conn_call_def Let_def split: prod.splits)



lemma is_connection_alive_conn: "fst (snd (is_connection_alive env st)) = fst st"
proof -
  have "snd (is_connection_alive env st) = snd (self_call env Noop st)"
    by (auto simp: is_connection_alive_def split: prod.splits sum.splits)
  then show ?thesis by (simp add: self_call_conn)
qed





section \<open>Properties of the search\<close>























section \<open>Properties of the deletion\<close>


































end
